theory Spec2Isabelle
  imports Main "HOL-Library.AList"
begin

section \<open>The Runner reporter\<close>

text \<open>
  A shallow embedding of the console reporter \<^verbatim>\<open>Runner\<close> (class \<^verbatim>\<open>Runner extends Coverage\<close>).
  The reporter object is a record; every event handler is a function from the reporter
  state (and the event's payload) to the new state. The calls made on the terminal
  (\<^verbatim>\<open>this.charm\<close>) and the coverage reports produced are recorded, in order, in the field
  \<open>terminal\<close>; the lines given to \<^verbatim>\<open>console.log\<close> in the field \<open>console\<close>.

  Conventions of the embedding:
  \<^item> an optional property (\<^verbatim>\<open>sessionId?\<close>, \<^verbatim>\<open>error?\<close>, \<^verbatim>\<open>coverage?\<close>) is an \<open>option\<close>;
    JavaScript's truthiness test on an optional string is \<open>truthy\<close> (absent and the
    empty string are both falsy);
  \<^item> test counts and elapsed milliseconds are natural numbers (JavaScript numbers are
    doubles, exact on integers below \<open>2^53\<close>);
  \<^item> strings are byte strings; the non-ASCII literals of the source are their UTF-8 bytes;
  \<^item> the \<^verbatim>\<open>sessions\<close> object is an association list in insertion order with distinct
    keys, read with \<open>map_of\<close> and written with \<open>AList.update\<close> (assigning an existing key
    keeps its place, a new key is appended, as \<^verbatim>\<open>Object.keys\<close> enumerates string keys);
    identifiers that name members of \<^verbatim>\<open>Object.prototype\<close> are outside the model;
  \<^item> a handler that can throw returns \<open>thrown + runner\<close>, \<open>Inl\<close> being the exception.
\<close>

subsection \<open>Suites, tests and sessions\<close>

datatype js_error = Error (err_message: string)

datatype thrown = TypeError

record test =
  test_id :: string
  test_error :: "js_error option"
  skipped :: "string option"
  timeElapsed :: nat

datatype suite = Suite
  (suite_id: string)
  (name: string)
  (sessionId: "string option")
  (hasParent: bool)
  (suite_error: "js_error option")
  (tests: "node list")
  (numTests: nat)
  (numFailedTests: nat)
  (numSkippedTests: nat)
and node = SuiteNode suite | TestNode test

text \<open>
  Modelled from the spec: the coverage map of istanbul-lib-coverage, "an opaque mergeable
  mapping from source-file path to coverage counters" that "supports merge(other)". It is
  a list of files with a hit counter each; merging adds the counters of a file present
  on both sides and appends a new file.
\<close>

type_synonym coverage_map = "(string \<times> nat) list"

definition createCoverageMap :: coverage_map where
  "createCoverageMap = []"

fun merge_file :: "coverage_map \<Rightarrow> string \<times> nat \<Rightarrow> coverage_map" where
  "merge_file m (f, n) =
     (case map_of m f of
        None \<Rightarrow> m @ [(f, n)]
      | Some k \<Rightarrow> AList.update f (k + n) m)"

definition merge :: "coverage_map \<Rightarrow> coverage_map \<Rightarrow> coverage_map" where
  "merge m other = foldl merge_file m other"

definition files :: "coverage_map \<Rightarrow> string list" where
  "files m = map fst m"

record session =
  session_coverage :: "coverage_map option"
  session_suite :: suite

subsection \<open>Event payloads\<close>

record coverage_message =
  cm_sessionId :: "string option"
  cm_coverage :: coverage_map

record deprecation_message =
  original :: string
  replacement :: "string option"
  message :: "string option"

record server =
  port :: nat
  socketPort :: "nat option"

record tunnel_message =
  progress :: "(nat \<times> nat) option"
  status :: "string option"

subsection \<open>The terminal\<close>

datatype color = Red | Green | Yellow | Magenta

datatype attr = Reset | Bright

text \<open>
  One entry per call: \<^verbatim>\<open>charm.foreground\<close>, \<^verbatim>\<open>charm.background\<close> (used by the older
  reporter only), \<^verbatim>\<open>charm.display\<close>, \<^verbatim>\<open>charm.write\<close>, and
  \<^verbatim>\<open>createCoverageReport\<close> (inherited from \<^verbatim>\<open>Coverage\<close>, which renders the map through
  istanbul). \<open>WriteProgress received total\<close> is the write of the tunnel download line,
  whose percentage is a floating-point computation (\<^verbatim>\<open>toFixed(3)\<close>) kept symbolic.
\<close>

datatype out_op =
    Foreground color
  | Background color
  | Display attr
  | Write string
  | WriteProgress nat nat
  | CreateCoverageReport coverage_map

record runner =
  sessions :: "(string \<times> session) list"
  hasErrors :: bool
  hidePassed :: bool
  hideSkipped :: bool
  serveOnly :: bool
  deprecationMessages :: "string \<rightharpoonup> bool"
  terminal :: "out_op list"
  console :: "string list"

definition emit :: "out_op list \<Rightarrow> runner \<Rightarrow> runner" where
  "emit ops st = st\<lparr>terminal := terminal st @ ops\<rparr>"

text \<open>What a handler added to the terminal: the part of \<open>terminal st'\<close> after \<open>terminal st\<close>.\<close>

definition written :: "runner \<Rightarrow> runner \<Rightarrow> out_op list" where
  "written st st' = drop (length (terminal st)) (terminal st')"

subsection \<open>Strings\<close>

definition nl :: string where
  "nl = [CHR 0x0A]"

definition truthy :: "string option \<Rightarrow> bool" where
  "truthy s = (case s of None \<Rightarrow> False | Some x \<Rightarrow> x \<noteq> [])"

text \<open>\<^verbatim>\<open>s || ''\<close> for an optional string.\<close>

definition or_empty :: "string option \<Rightarrow> string" where
  "or_empty s = (case s of None \<Rightarrow> [] | Some x \<Rightarrow> x)"

text \<open>String conversion of an optional string, in \<^verbatim>\<open>+\<close> and in a template literal.\<close>

definition js_string :: "string option \<Rightarrow> string" where
  "js_string s = (case s of None \<Rightarrow> ''undefined'' | Some x \<Rightarrow> x)"

definition digit :: "nat \<Rightarrow> char" where
  "digit d = ''0123456789'' ! d"

text \<open>The decimal numeral of a count, as \<^verbatim>\<open>%d\<close> and \<^verbatim>\<open>+\<close> render it.\<close>

fun show_nat :: "nat \<Rightarrow> string" where
  "show_nat n = (if n < 10 then [digit n] else show_nat (n div 10) @ [digit (n mod 10)])"

declare show_nat.simps [simp del]

text \<open>
  \<^verbatim>\<open>test.timeElapsed / 1000\<close> converted to a string: the seconds, then the milliseconds
  as a fraction without trailing zeros (exact for elapsed times below \<open>10^15\<close> ms).
\<close>

definition fraction :: "nat \<Rightarrow> string" where
  "fraction ms =
     (if ms = 0 then []
      else if ms mod 100 = 0 then CHR ''.'' # [digit (ms div 100)]
      else if ms mod 10 = 0 then CHR ''.'' # [digit (ms div 100), digit (ms div 10 mod 10)]
      else CHR ''.'' # [digit (ms div 100), digit (ms div 10 mod 10), digit (ms mod 10)])"

definition seconds :: "nat \<Rightarrow> string" where
  "seconds ms = show_nat (ms div 1000) @ fraction (ms mod 1000)"

text \<open>
  \<^verbatim>\<open>util.format\<close> on the placeholders the reporter uses: each \<^verbatim>\<open>%s\<close> or \<^verbatim>\<open>%d\<close> takes the
  next argument, already converted to its string; once the arguments are used up the
  rest of the format is copied. Every call of the reporter passes as many arguments as
  its format has placeholders.
\<close>

fun format :: "string \<Rightarrow> string list \<Rightarrow> string" where
  "format (c # d # cs) (a # as) =
     (if c = CHR ''%'' \<and> (d = CHR ''s'' \<or> d = CHR ''d'') then a @ format cs as
      else c # format (d # cs) (a # as))"
| "format cs as = cs"

declare format.simps(1) [simp del]

text \<open>\<^verbatim>\<open>message.split('\n')\<close>.\<close>

fun split_lines :: "string \<Rightarrow> string list" where
  "split_lines [] = [[]]"
| "split_lines (c # cs) =
     (if c = CHR 0x0A then [] # split_lines cs
      else (case split_lines cs of [] \<Rightarrow> [[c]] | l # ls \<Rightarrow> (c # l) # ls))"

definition warning_sign :: string where
  "warning_sign = [CHR 0xE2, CHR 0x9A, CHR 0xA0, CHR 0xEF, CHR 0xB8, CHR 0x8E, CHR 0x20]"

definition table_flip :: string where
  "table_flip =
     [CHR 0x28, CHR 0xE3, CHR 0x83, CHR 0x8E, CHR 0xE0, CHR 0xB2, CHR 0xA0, CHR 0xE7, CHR 0x9B,
      CHR 0x8A, CHR 0xE0, CHR 0xB2, CHR 0xA0, CHR 0x29, CHR 0xE3, CHR 0x83, CHR 0x8E, CHR 0xE5,
      CHR 0xBD, CHR 0xA1, CHR 0xE2, CHR 0x94, CHR 0xBB, CHR 0xE2, CHR 0x94, CHR 0x81, CHR 0xE2,
      CHR 0x94, CHR 0xBB, CHR 0x0A]"

definition bullet :: string where
  "bullet = [CHR 0xE2, CHR 0x80, CHR 0xA3, CHR 0x20]"

definition cross_mark :: string where
  "cross_mark = [CHR 0xC3, CHR 0x97, CHR 0x20]"

definition check_mark :: string where
  "check_mark = [CHR 0xE2, CHR 0x9C, CHR 0x93, CHR 0x20]"

definition erase_line :: string where
  "erase_line = [CHR 0x1B, CHR ''['', CHR ''K'', CHR 0x0D]"

text \<open>
  Modelled from the spec: \<^verbatim>\<open>formatError\<close> of the base class \<^verbatim>\<open>Reporter\<close>, whose source is
  not part of the excerpt; an error is "surfaced" as "the underlying error's message".
\<close>

definition formatError :: "js_error \<Rightarrow> string" where
  "formatError e = err_message e"

subsection \<open>Construction\<close>

text \<open>
  The constructor takes \<^verbatim>\<open>serveOnly\<close> from the executor's configuration, starts with no
  session, no error and no deprecation seen, and resets the terminal. \<^verbatim>\<open>hidePassed\<close> and
  \<^verbatim>\<open>hideSkipped\<close> are properties set from the reporter's options.
\<close>

definition new_Runner :: "bool \<Rightarrow> bool \<Rightarrow> bool \<Rightarrow> runner" where
  "new_Runner serve hide_passed hide_skipped =
     \<lparr>sessions = [], hasErrors = False, hidePassed = hide_passed, hideSkipped = hide_skipped,
      serveOnly = serve, deprecationMessages = Map.empty, terminal = [Display Reset],
      console = []\<rparr>"

subsection \<open>Event handlers\<close>

text \<open>
  \<^verbatim>\<open>coverage\<close>: the session is read from the map and its \<^verbatim>\<open>coverage\<close> property is
  dereferenced at once; when the map has no entry the read of \<^verbatim>\<open>session.coverage\<close> throws
  a TypeError, before anything is changed.
\<close>

definition coverage :: "runner \<Rightarrow> coverage_message \<Rightarrow> thrown + runner" where
  "coverage st msg =
     (let key = or_empty (cm_sessionId msg) in
      case map_of (sessions st) key of
        None \<Rightarrow> Inl TypeError
      | Some session \<Rightarrow>
          let c = (case session_coverage session of
                     None \<Rightarrow> createCoverageMap
                   | Some c' \<Rightarrow> c')
          in Inr (st\<lparr>sessions :=
                    AList.update key (session\<lparr>session_coverage := Some (merge c (cm_coverage msg))\<rparr>)
                      (sessions st)\<rparr>))"

definition deprecation_key :: "deprecation_message \<Rightarrow> string" where
  "deprecation_key m =
     original m @ ''|'' @ js_string (replacement m) @ ''|'' @ js_string (message m)"

definition deprecated :: "runner \<Rightarrow> deprecation_message \<Rightarrow> runner" where
  "deprecated st m =
     (let key = deprecation_key m in
      if deprecationMessages st key = Some True then st
      else
        emit
          ([Foreground Yellow, Write (warning_sign @ original m @ '' is deprecated. '')] @
           [if truthy (replacement m) then Write (''Use '' @ js_string (replacement m) @ '' instead.'')
            else Write (''Please open a ticket at https://github.com/theintern/intern/issues if you still '' @
                        ''require access to this function.'')] @
           (if truthy (message m) then [Write ('' '' @ js_string (message m))] else []) @
           [Write nl, Display Reset])
          (st\<lparr>deprecationMessages := (deprecationMessages st)(key \<mapsto> True)\<rparr>))"

definition error :: "runner \<Rightarrow> js_error \<Rightarrow> runner" where
  "error st e =
     (emit [Foreground Red, Write table_flip, Write (formatError e), Display Reset,
            Write (nl @ nl)] st)
       \<lparr>hasErrors := True\<rparr>"

definition log :: "runner \<Rightarrow> string \<Rightarrow> runner" where
  "log st msg = st\<lparr>console := console st @ map (\<lambda>line. ''DEBUG: '' @ line) (split_lines msg)\<rparr>"

text \<open>
  \<^verbatim>\<open>runEnd\<close>. The body of the \<^verbatim>\<open>forEach\<close> over \<^verbatim>\<open>Object.keys(this.sessions)\<close> is
  \<open>runEnd_step\<close>, on the four accumulators \<^verbatim>\<open>map\<close>, \<^verbatim>\<open>numTests\<close>, \<^verbatim>\<open>numFailedTests\<close> and
  \<^verbatim>\<open>numSkippedTests\<close>; \<open>runEnd_totals\<close> is the whole loop. (A key of the object always
  has an entry, so the \<open>None\<close> case of the step is never taken.)
\<close>

fun runEnd_step ::
  "(string \<times> session) list \<Rightarrow> coverage_map \<times> nat \<times> nat \<times> nat \<Rightarrow> string \<Rightarrow>
   coverage_map \<times> nat \<times> nat \<times> nat" where
  "runEnd_step ss (cmap, num_tests, num_failed, num_skipped) sid =
     (case map_of ss sid of
        None \<Rightarrow> (cmap, num_tests, num_failed, num_skipped)
      | Some session \<Rightarrow>
          ((case session_coverage session of None \<Rightarrow> cmap | Some c \<Rightarrow> merge cmap c),
           num_tests + numTests (session_suite session),
           num_failed + numFailedTests (session_suite session),
           num_skipped + numSkippedTests (session_suite session)))"

definition runEnd_totals :: "runner \<Rightarrow> coverage_map \<times> nat \<times> nat \<times> nat" where
  "runEnd_totals st =
     foldl (runEnd_step (sessions st)) (createCoverageMap, 0, 0, 0) (map fst (sessions st))"

definition runEnd :: "runner \<Rightarrow> runner" where
  "runEnd st =
     (let sessionIds = map fst (sessions st);
          numEnvironments = length sessionIds
      in if length sessionIds > 1 then
           (case runEnd_totals st of
              (cmap, num_tests, num_failed, num_skipped) \<Rightarrow>
                let st1 = (if length (files cmap) > 0
                           then emit [Write nl, Display Bright, Write (''Total coverage'' @ nl),
                                      Display Reset, CreateCoverageReport cmap] st
                           else st);
                    msg = ''TOTAL: tested %d platforms, %d/%d tests failed'';
                    msg1 = (if num_skipped \<noteq> 0
                            then msg @ '' ('' @ show_nat num_skipped @ '' skipped)'' else msg);
                    msg2 = (if hasErrors st \<and> num_failed = 0
                            then msg1 @ ''; fatal error occurred'' else msg1)
                in emit [Display Bright,
                         Foreground (if num_failed > 0 \<or> hasErrors st then Red else Green),
                         Write (format msg2 [show_nat numEnvironments, show_nat num_failed,
                                             show_nat num_tests]),
                         Display Reset, Write nl] st1)
         else st)"

definition serverStart :: "runner \<Rightarrow> server \<Rightarrow> runner" where
  "serverStart st srv =
     (let msg = ''Listening on localhost:'' @ show_nat (port srv);
          msg1 = (case socketPort srv of
                    None \<Rightarrow> msg
                  | Some p \<Rightarrow> if p \<noteq> 0 then msg @ '' (ws '' @ show_nat p @ '')'' else msg)
      in emit [Write (msg1 @ nl)] st)"

text \<open>
  The local function \<^verbatim>\<open>hasError\<close> of \<^verbatim>\<open>suiteEnd\<close>: a node with a \<^verbatim>\<open>tests\<close> array (a suite)
  has an error if it carries one or one of its children has; a node without (a test)
  gives \<^verbatim>\<open>false\<close>.
\<close>

fun hasError :: "node \<Rightarrow> bool" where
  "hasError (SuiteNode (Suite i n sid hp e ts nt nf ns)) =
     (case e of Some err \<Rightarrow> True | None \<Rightarrow> list_ex hasError ts)"
| "hasError (TestNode t) = False"

definition suiteEnd :: "runner \<Rightarrow> suite \<Rightarrow> runner" where
  "suiteEnd st suite =
     (case suite_error suite of
        Some err \<Rightarrow>
          (emit [Foreground Red, Write (''Suite '' @ suite_id suite @ '' FAILED'' @ nl),
                 Write (formatError err), Display Reset, Write nl] st)
            \<lparr>hasErrors := True\<rparr>
      | None \<Rightarrow>
          if \<not> hasParent suite then
            (case map_of (sessions st) (or_empty (sessionId suite)) of
               None \<Rightarrow>
                 if \<not> serveOnly st
                 then emit [Display Bright, Foreground Yellow,
                            Write (''BUG: suiteEnd was received for invalid session '' @
                                   js_string (sessionId suite)),
                            Display Reset, Write nl] st
                 else st
             | Some session \<Rightarrow>
                 let st1 = (case session_coverage session of
                              Some c \<Rightarrow> emit [Write nl, CreateCoverageReport c] st
                            | None \<Rightarrow>
                                emit [Write (''No unit test coverage for '' @ name suite),
                                      Display Reset, Write nl] st);
                     has_error = hasError (SuiteNode suite);
                     summary = format ''%s: %d/%d tests failed''
                                 [name suite, show_nat (numFailedTests suite),
                                  show_nat (numTests suite)];
                     summary1 = (if numSkippedTests suite \<noteq> 0
                                 then summary @ '' ('' @ show_nat (numSkippedTests suite) @
                                      '' skipped)''
                                 else summary);
                     summary2 = (if has_error then summary1 @ ''; fatal error occurred''
                                 else summary1)
                 in emit [Display Bright,
                          Foreground (if numFailedTests suite \<noteq> 0 \<or> has_error then Red
                                      else Green),
                          Write summary2, Display Reset, Write nl] st1)
          else st)"

definition suiteStart :: "runner \<Rightarrow> suite \<Rightarrow> runner" where
  "suiteStart st suite =
     (if \<not> hasParent suite then
        let st1 = st\<lparr>sessions :=
                     AList.update (or_empty (sessionId suite))
                       \<lparr>session_coverage = None, session_suite = suite\<rparr> (sessions st)\<rparr>
        in if truthy (sessionId suite)
           then emit [Write nl,
                      Write (bullet @ ''Created remote session '' @ name suite @ '' ('' @
                             js_string (sessionId suite) @ '')'' @ nl)] st1
           else st1
      else st)"

definition testEnd :: "runner \<Rightarrow> test \<Rightarrow> runner" where
  "testEnd st t =
     (case test_error t of
        Some err \<Rightarrow>
          emit [Foreground Red, Write (cross_mark @ test_id t),
                Write ('' ('' @ seconds (timeElapsed t) @ ''s)''), Write nl, Display Reset,
                Foreground Red, Write (formatError err), Display Reset, Write nl] st
      | None \<Rightarrow>
          if truthy (skipped t) then
            (if \<not> hideSkipped st
             then emit [Foreground Magenta, Write (''~ '' @ test_id t), Display Reset,
                        Write ('' ('' @ js_string (skipped t) @ '')''), Display Reset,
                        Write nl] st
             else st)
          else
            (if \<not> hidePassed st
             then emit [Foreground Green, Write (check_mark @ test_id t), Display Reset,
                        Write ('' ('' @ seconds (timeElapsed t) @ ''s)''), Display Reset,
                        Write nl] st
             else st))"

text \<open>
  \<^verbatim>\<open>tunnelDownloadProgress\<close> reads \<^verbatim>\<open>message.progress!.received\<close>: an absent \<^verbatim>\<open>progress\<close>
  throws a TypeError before anything is written.
\<close>

definition tunnelDownloadProgress :: "runner \<Rightarrow> tunnel_message \<Rightarrow> thrown + runner" where
  "tunnelDownloadProgress st msg =
     (case progress msg of
        None \<Rightarrow> Inl TypeError
      | Some (rcvd, tot) \<Rightarrow> Inr (emit [WriteProgress rcvd tot] st))"

definition tunnelStart :: "runner \<Rightarrow> runner" where
  "tunnelStart st = emit [Write (''Tunnel started'' @ nl)] st"

definition tunnelStatus :: "runner \<Rightarrow> tunnel_message \<Rightarrow> runner" where
  "tunnelStatus st msg = emit [Write (js_string (status msg) @ erase_line)] st"

subsection \<open>Events and runs\<close>

datatype event =
    Coverage coverage_message
  | Deprecated deprecation_message
  | ErrorEvent js_error
  | Log string
  | RunEnd
  | ServerStart server
  | SuiteEnd suite
  | SuiteStart suite
  | TestEnd test
  | TunnelDownloadProgress tunnel_message
  | TunnelStart
  | TunnelStatus tunnel_message

fun handle :: "runner \<Rightarrow> event \<Rightarrow> thrown + runner" where
  "handle st (Coverage m) = coverage st m"
| "handle st (Deprecated m) = Inr (deprecated st m)"
| "handle st (ErrorEvent e) = Inr (error st e)"
| "handle st (Log m) = Inr (log st m)"
| "handle st RunEnd = Inr (runEnd st)"
| "handle st (ServerStart s) = Inr (serverStart st s)"
| "handle st (SuiteEnd s) = Inr (suiteEnd st s)"
| "handle st (SuiteStart s) = Inr (suiteStart st s)"
| "handle st (TestEnd t) = Inr (testEnd st t)"
| "handle st (TunnelDownloadProgress m) = tunnelDownloadProgress st m"
| "handle st TunnelStart = Inr (tunnelStart st)"
| "handle st (TunnelStatus m) = Inr (tunnelStatus st m)"

text \<open>
  The reporter after a sequence of events. A handler that throws has changed nothing
  (both throwing reads come before any update), so the state it leaves is the one it got.
\<close>

definition after :: "runner \<Rightarrow> event \<Rightarrow> runner" where
  "after st ev = (case handle st ev of Inl x \<Rightarrow> st | Inr st' \<Rightarrow> st')"

fun run :: "runner \<Rightarrow> event list \<Rightarrow> runner" where
  "run st [] = st"
| "run st (ev # evs) = run (after st ev) evs"

subsection \<open>The older reporter\<close>

text \<open>
  \<^verbatim>\<open>lib/reporters/Runner.ts\<close> is an older version of the same class. Its \<^verbatim>\<open>coverage\<close>,
  \<^verbatim>\<open>runEnd\<close> and \<^verbatim>\<open>suiteStart\<close> are embedded on the same state, for comparison:
  \<^verbatim>\<open>coverage\<close> is guarded by \<^verbatim>\<open>mode === 'client' || sessionId\<close> (the runner host, which has
  no session identifier, is ignored), \<^verbatim>\<open>runEnd\<close> writes its summary for any number of
  sessions, and \<^verbatim>\<open>suiteStart\<close> registers the session in the same way. Its collector is the
  coverage map above.
\<close>

datatype mode = Client | RunnerHost

definition legacy_coverage ::
  "mode \<Rightarrow> runner \<Rightarrow> string option \<Rightarrow> coverage_map \<Rightarrow> thrown + runner" where
  "legacy_coverage md st sid cov =
     (if md = Client \<or> truthy sid then
        (case map_of (sessions st) (or_empty sid) of
           None \<Rightarrow> Inl TypeError
         | Some session \<Rightarrow>
             let c = (case session_coverage session of
                        None \<Rightarrow> createCoverageMap
                      | Some c' \<Rightarrow> c')
             in Inr (st\<lparr>sessions :=
                       AList.update (or_empty sid)
                         (session\<lparr>session_coverage := Some (merge c cov)\<rparr>) (sessions st)\<rparr>))
      else Inr st)"

definition legacy_runEnd :: "runner \<Rightarrow> runner" where
  "legacy_runEnd st =
     (case runEnd_totals st of
        (collector, num_tests, num_failed, num_skipped) \<Rightarrow>
          let numEnvironments = length (map fst (sessions st));
              st1 = emit [Write nl] st;
              st2 = (if length (files collector) > 0
                     then emit [CreateCoverageReport collector] st1 else st1);
              msg = ''TOTAL: tested %d platforms, %d/%d tests failed'';
              msg1 = (if num_skipped \<noteq> 0
                      then msg @ '' ('' @ show_nat num_skipped @ '' skipped)'' else msg);
              msg2 = (if hasErrors st \<and> num_failed = 0
                      then msg1 @ ''; fatal error occurred'' else msg1)
          in emit [Display Bright,
                   Background (if num_failed > 0 \<or> hasErrors st then Red else Green),
                   Write (format msg2 [show_nat numEnvironments, show_nat num_failed,
                                       show_nat num_tests]),
                   Display Reset, Write nl] st2)"

definition legacy_suiteStart :: "runner \<Rightarrow> suite \<Rightarrow> runner" where
  "legacy_suiteStart st suite =
     (if \<not> hasParent suite then
        let st1 = st\<lparr>sessions :=
                     AList.update (or_empty (sessionId suite))
                       \<lparr>session_coverage = None, session_suite = suite\<rparr> (sessions st)\<rparr>
        in if truthy (sessionId suite)
           then emit [Write (bullet @ ''Created session '' @ name suite @ '' ('' @
                             js_string (sessionId suite) @ '')'' @ nl)] st1
           else st1
      else st)"

subsection \<open>Notions used to state the properties\<close>

text \<open>The suites of a result tree: the node itself when it is a suite, and the suites below it.\<close>

fun subsuites :: "node \<Rightarrow> suite list" where
  "subsuites (SuiteNode (Suite i n sid hp e ts nt nf ns)) =
     Suite i n sid hp e ts nt nf ns # concat (map subsuites ts)"
| "subsuites (TestNode t) = []"

text \<open>The tests of a result tree.\<close>

fun subtests :: "node \<Rightarrow> test list" where
  "subtests (SuiteNode (Suite i n sid hp e ts nt nf ns)) = concat (map subtests ts)"
| "subtests (TestNode t) = [t]"

text \<open>The sum of a count over the root suites of the registered sessions.\<close>

definition sum_over :: "(suite \<Rightarrow> nat) \<Rightarrow> runner \<Rightarrow> nat" where
  "sum_over f st = sum_list (map (\<lambda>(sid, s). f (session_suite s)) (sessions st))"

text \<open>The suffixes of a summary line.\<close>

definition skipped_suffix :: "nat \<Rightarrow> string" where
  "skipped_suffix n = (if n \<noteq> 0 then '' ('' @ show_nat n @ '' skipped)'' else [])"

subsection \<open>Example inputs\<close>

definition passed_test :: test where
  "passed_test = \<lparr>test_id = ''t1'', test_error = None, skipped = None, timeElapsed = 1234\<rparr>"

definition failed_test :: test where
  "failed_test =
     \<lparr>test_id = ''t2'', test_error = Some (Error ''boom''), skipped = None, timeElapsed = 5\<rparr>"

definition skipped_test :: test where
  "skipped_test =
     \<lparr>test_id = ''t3'', test_error = None, skipped = Some ''not now'', timeElapsed = 0\<rparr>"

definition suite_A :: suite where
  "suite_A = Suite ''A'' ''chrome'' (Some ''s1'') False None [] 10 2 1"

definition suite_B :: suite where
  "suite_B = Suite ''B'' ''firefox'' (Some ''s2'') False None [] 5 0 0"

definition suite_C :: suite where
  "suite_C = Suite ''C'' ''safari'' (Some ''s3'') False None [] 7 0 0"

definition broken_child :: suite where
  "broken_child =
     Suite ''R - setup'' ''setup'' (Some ''s1'') True (Some (Error ''before failed'')) [] 0 0 0"

definition root_with_broken_child :: suite where
  "root_with_broken_child =
     Suite ''R'' ''root'' (Some ''s1'') False None [SuiteNode broken_child] 0 0 0"

definition root_with_failed_test :: suite where
  "root_with_failed_test =
     Suite ''R'' ''root'' (Some ''s1'') False None [TestNode failed_test] 1 0 0"

definition nested_suite :: suite where
  "nested_suite = Suite ''R - inner'' ''inner'' (Some ''s1'') True None [TestNode passed_test] 1 0 0"

definition fresh :: runner where
  "fresh = new_Runner False False False"

definition quiet :: runner where
  "quiet = new_Runner False True True"

definition two_sessions :: runner where
  "two_sessions = suiteStart (suiteStart fresh suite_A) suite_B"

definition errored_run :: runner where
  "errored_run = error (suiteStart (suiteStart fresh suite_B) suite_C) (Error ''tunnel lost'')"

definition covered_run :: runner where
  "covered_run =
     after two_sessions (Coverage \<lparr>cm_sessionId = Some ''s1'', cm_coverage = [(''a.js'', 3)]\<rparr>)"

definition one_session :: runner where
  "one_session = suiteStart fresh root_with_failed_test"

definition notice_1 :: deprecation_message where
  "notice_1 = \<lparr>original = ''run'', replacement = Some ''start'', message = Some ''stop|halt''\<rparr>"

definition notice_2 :: deprecation_message where
  "notice_2 = \<lparr>original = ''run'', replacement = Some ''start|stop'', message = Some ''halt''\<rparr>"

section \<open>Properties\<close>

subsection \<open>Auxiliary facts\<close>

lemma format_plain [simp]: "c \<noteq> CHR ''%'' \<Longrightarrow> format (c # cs) as = c # format cs as"
  by (cases cs; cases as) (auto simp: format.simps(1))

lemma format_d [simp]: "format (CHR ''%'' # CHR ''d'' # cs) (a # as) = a @ format cs as"
  by (simp add: format.simps(1))

lemma format_s [simp]: "format (CHR ''%'' # CHR ''s'' # cs) (a # as) = a @ format cs as"
  by (simp add: format.simps(1))

lemma total_line:
  "format (''TOTAL: tested %d platforms, %d/%d tests failed'' @ sfx) [a, b, c] =
     ''TOTAL: tested '' @ a @ '' platforms, '' @ b @ ''/'' @ c @ '' tests failed'' @ sfx"
  by simp

lemma summary_line:
  "format ''%s: %d/%d tests failed'' [a, b, c] = a @ '': '' @ b @ ''/'' @ c @ '' tests failed''"
  by simp

lemma written_self [simp]: "written st st = []"
  by (simp add: written_def)

lemma written_emit [simp]: "written st (emit ops st) = ops"
  by (simp add: written_def emit_def)

lemma written_emit_emit [simp]: "written st (emit ops' (emit ops st)) = ops @ ops'"
  by (simp add: written_def emit_def)

lemma sessions_emit [simp]: "sessions (emit ops st) = sessions st"
  by (simp add: emit_def)

lemma hasErrors_emit [simp]: "hasErrors (emit ops st) = hasErrors st"
  by (simp add: emit_def)

subsection \<open>The sessions map keeps one entry per identifier\<close>

lemma distinct_sessions_handle:
  "distinct (map fst (sessions st)) \<Longrightarrow> handle st ev = Inr st' \<Longrightarrow>
   distinct (map fst (sessions st'))"
  by (cases ev)
    (auto simp: coverage_def deprecated_def error_def log_def runEnd_def serverStart_def
      suiteEnd_def suiteStart_def testEnd_def tunnelDownloadProgress_def tunnelStart_def
      tunnelStatus_def Let_def emit_def distinct_update split: option.splits prod.splits)

lemma distinct_sessions_run:
  "distinct (map fst (sessions (run (new_Runner serve hide_passed hide_skipped) evs)))"
proof -
  have "distinct (map fst (sessions st)) \<Longrightarrow> distinct (map fst (sessions (run st evs)))" for st
    by (induction evs arbitrary: st)
      (auto simp: after_def dest: distinct_sessions_handle split: sum.splits)
  then show ?thesis
    by (simp add: new_Runner_def)
qed

subsection \<open>Coverage for an unknown session\<close>

lemma coverage_unknown_session:
  "(coverage st m = Inl TypeError) = (map_of (sessions st) (or_empty (cm_sessionId m)) = None)"
  by (simp add: coverage_def Let_def split: option.splits)

text \<open>
  The older handler ignores the runner host (no identifier, not in client mode) and
  throws like the newer one for any other identifier without entry.
\<close>

lemma legacy_coverage_host_ignored: "legacy_coverage RunnerHost st None cov = Inr st"
  by (simp add: legacy_coverage_def truthy_def)

lemma legacy_coverage_unknown_session:
  "md = Client \<or> truthy sid \<Longrightarrow> map_of (sessions st) (or_empty sid) = None \<Longrightarrow>
   legacy_coverage md st sid cov = Inl TypeError"
  by (auto simp: legacy_coverage_def)

text \<open>
  C1. The claim: a coverage event whose session identifier has no entry in the sessions
  map does not throw. The handler has no such guard (\<^verbatim>\<open>suiteEnd\<close> has one): on the
  reporter as constructed, a coverage event for session \<^verbatim>\<open>s1\<close> finds no entry and ends in
  a TypeError.
\<close>

theorem coverage_unknown_session_throws:
  "map_of (sessions fresh) ''s1'' = None \<and>
   coverage fresh \<lparr>cm_sessionId = Some ''s1'', cm_coverage = [(''a.js'', 1)]\<rparr> = Inl TypeError"
  by (simp add: coverage_def fresh_def new_Runner_def or_empty_def)

subsection \<open>The summary of a root suite\<close>

lemma hasError_subsuites: "hasError n = (\<exists>s \<in> set (subsuites n). suite_error s \<noteq> None)"
  by (induction n rule: hasError.induct) (auto simp: list_ex_iff split: option.splits)

lemma suiteEnd_root_written:
  assumes "\<not> hasParent suite" and "suite_error suite = None"
    and "map_of (sessions st) (or_empty (sessionId suite)) = Some session"
  shows "written st (suiteEnd st suite) =
    (case session_coverage session of
       Some c \<Rightarrow> [Write nl, CreateCoverageReport c]
     | None \<Rightarrow> [Write (''No unit test coverage for '' @ name suite), Display Reset, Write nl]) @
    [Display Bright,
     Foreground (if numFailedTests suite \<noteq> 0 \<or> hasError (SuiteNode suite) then Red else Green),
     Write (name suite @ '': '' @ show_nat (numFailedTests suite) @ ''/'' @
            show_nat (numTests suite) @ '' tests failed'' @
            skipped_suffix (numSkippedTests suite) @
            (if hasError (SuiteNode suite) then ''; fatal error occurred'' else [])),
     Display Reset, Write nl]"
  using assms by (simp add: suiteEnd_def Let_def skipped_suffix_def split: option.splits)

text \<open>
  C2, as amended. Let a root suite be passed to \<^verbatim>\<open>suiteEnd\<close> that carries no error itself
  and whose session is registered (so that its summary line is written). If a suite
  below it, anywhere in its result tree, carries an error, then the traversal \<^verbatim>\<open>hasError\<close>
  gives true, the summary is written in red and it ends with
  \<^verbatim>\<open>; fatal error occurred\<close>, whatever \<^verbatim>\<open>numFailedTests\<close> is.
\<close>

theorem suiteEnd_descendant_suite_error:
  assumes "\<not> hasParent suite" and "suite_error suite = None"
    and "map_of (sessions st) (or_empty (sessionId suite)) = Some session"
    and "d \<in> set (subsuites (SuiteNode suite))" and "suite_error d \<noteq> None"
  shows "hasError (SuiteNode suite) \<and>
    written st (suiteEnd st suite) =
      (case session_coverage session of
         Some c \<Rightarrow> [Write nl, CreateCoverageReport c]
       | None \<Rightarrow> [Write (''No unit test coverage for '' @ name suite), Display Reset, Write nl]) @
      [Display Bright, Foreground Red,
       Write (name suite @ '': '' @ show_nat (numFailedTests suite) @ ''/'' @
              show_nat (numTests suite) @ '' tests failed'' @
              skipped_suffix (numSkippedTests suite) @ ''; fatal error occurred''),
       Display Reset, Write nl]"
proof -
  from assms(4,5) have "hasError (SuiteNode suite)"
    unfolding hasError_subsuites by blast
  with suiteEnd_root_written [OF assms(1-3)] show ?thesis
    by simp
qed

theorem suiteEnd_descendant_suite_error_witness:
  "\<not> hasParent root_with_broken_child \<and> suite_error root_with_broken_child = None \<and>
   numFailedTests root_with_broken_child = 0 \<and>
   map_of (sessions one_session) ''s1'' =
     Some \<lparr>session_coverage = None, session_suite = root_with_failed_test\<rparr> \<and>
   broken_child \<in> set (subsuites (SuiteNode root_with_broken_child)) \<and>
   suite_error broken_child \<noteq> None \<and>
   hasError (SuiteNode root_with_broken_child) \<and>
   written one_session (suiteEnd one_session root_with_broken_child) =
     [Write ''No unit test coverage for root'', Display Reset, Write nl,
      Display Bright, Foreground Red, Write ''root: 0/0 tests failed; fatal error occurred'',
      Display Reset, Write nl]"
proof -
  have 1: "\<not> hasParent root_with_broken_child" and 2: "suite_error root_with_broken_child = None"
    and 4: "broken_child \<in> set (subsuites (SuiteNode root_with_broken_child))"
    and 5: "suite_error broken_child \<noteq> None"
    by (simp_all add: root_with_broken_child_def broken_child_def)
  have 3: "map_of (sessions one_session) (or_empty (sessionId root_with_broken_child)) =
      Some \<lparr>session_coverage = None, session_suite = root_with_failed_test\<rparr>"
    by (simp add: one_session_def suiteStart_def fresh_def new_Runner_def
        root_with_failed_test_def root_with_broken_child_def or_empty_def truthy_def emit_def)
  from suiteEnd_descendant_suite_error [OF 1 2 3 4 5] 1 2 3 4 5 show ?thesis
    by (simp add: root_with_broken_child_def or_empty_def skipped_suffix_def show_nat.simps
        digit_def)
qed

text \<open>
  C2 as stated fails: \<^verbatim>\<open>hasError\<close> answers \<^verbatim>\<open>false\<close> on every node without a \<^verbatim>\<open>tests\<close>
  array, so the error of a test is not seen. A root suite with no failed test counted and
  one test that carries an error gets a green summary without the fatal-error suffix.
\<close>

theorem suiteEnd_test_error_counterexample:
  "\<not> hasParent root_with_failed_test \<and> numFailedTests root_with_failed_test = 0 \<and>
   failed_test \<in> set (subtests (SuiteNode root_with_failed_test)) \<and>
   test_error failed_test = Some (Error ''boom'') \<and>
   \<not> hasError (SuiteNode root_with_failed_test) \<and>
   written one_session (suiteEnd one_session root_with_failed_test) =
     [Write ''No unit test coverage for root'', Display Reset, Write nl,
      Display Bright, Foreground Green, Write ''root: 0/1 tests failed'',
      Display Reset, Write nl]"
  by (simp add: root_with_failed_test_def failed_test_def one_session_def suiteStart_def
      suiteEnd_def fresh_def new_Runner_def or_empty_def truthy_def emit_def written_def
      Let_def show_nat.simps digit_def)

subsection \<open>The totals of a run\<close>

lemma foldl_runEnd_step:
  "snd (foldl (runEnd_step ss) (c, a, b, d) ks) =
     (a + sum_list (map (\<lambda>k. case map_of ss k of None \<Rightarrow> 0
                             | Some s \<Rightarrow> numTests (session_suite s)) ks),
      b + sum_list (map (\<lambda>k. case map_of ss k of None \<Rightarrow> 0
                             | Some s \<Rightarrow> numFailedTests (session_suite s)) ks),
      d + sum_list (map (\<lambda>k. case map_of ss k of None \<Rightarrow> 0
                             | Some s \<Rightarrow> numSkippedTests (session_suite s)) ks))"
  by (induction ks arbitrary: c a b d) (auto split: option.splits)

lemma lookup_own_keys:
  assumes "distinct (map fst ss)"
  shows "map ((\<lambda>k. case map_of ss k of None \<Rightarrow> 0 | Some s \<Rightarrow> f (session_suite s)) \<circ> fst) ss =
         map (\<lambda>(sid, s). f (session_suite s)) ss"
proof -
  have "map_of ss (fst p) = Some (snd p)" if "p \<in> set ss" for p
    using that assms by (metis map_of_is_SomeI prod.collapse)
  then show ?thesis
    by (auto simp: split_def)
qed

lemma runEnd_totals_sums:
  "distinct (map fst (sessions st)) \<Longrightarrow>
   snd (runEnd_totals st) =
     (sum_over numTests st, sum_over numFailedTests st, sum_over numSkippedTests st)"
  by (simp add: runEnd_totals_def foldl_runEnd_step sum_over_def lookup_own_keys)

text \<open>
  With distinct keys the list of entries is the map: \<open>sum_over\<close> is the sum over the
  domain of the sessions map, and the length of the list is the number of its keys.
\<close>

lemma sum_over_registered:
  assumes "distinct (map fst (sessions st))"
  shows "sum_over f st =
    (\<Sum>k \<in> dom (map_of (sessions st)).
        case map_of (sessions st) k of None \<Rightarrow> 0 | Some s \<Rightarrow> f (session_suite s))"
    and "length (sessions st) = card (dom (map_of (sessions st)))"
proof -
  let ?g = "\<lambda>k. case map_of (sessions st) k of None \<Rightarrow> 0 | Some s \<Rightarrow> f (session_suite s)"
  have "sum_over f st = sum_list (map ?g (map fst (sessions st)))"
    by (simp only: sum_over_def map_map lookup_own_keys [OF assms])
  also have "\<dots> = sum ?g (set (map fst (sessions st)))"
    using assms by (rule sum_list_distinct_conv_sum_set)
  finally show "sum_over f st = sum ?g (dom (map_of (sessions st)))"
    by (simp add: dom_map_of_conv_image_fst)
  show "length (sessions st) = card (dom (map_of (sessions st)))"
    using distinct_card [OF assms] by (simp add: dom_map_of_conv_image_fst)
qed

lemma runEnd_written:
  assumes "1 < length (sessions st)" and "runEnd_totals st = (cmap, t, f, s)"
  shows "written st (runEnd st) =
    (if files cmap \<noteq> []
     then [Write nl, Display Bright, Write (''Total coverage'' @ nl), Display Reset,
           CreateCoverageReport cmap]
     else []) @
    [Display Bright, Foreground (if 0 < f \<or> hasErrors st then Red else Green),
     Write (''TOTAL: tested '' @ show_nat (length (sessions st)) @ '' platforms, '' @
            show_nat f @ ''/'' @ show_nat t @ '' tests failed'' @ skipped_suffix s @
            (if hasErrors st \<and> f = 0 then ''; fatal error occurred'' else [])),
     Display Reset, Write nl]"
  using assms by (simp add: runEnd_def Let_def skipped_suffix_def)

text \<open>
  C3. When \<^verbatim>\<open>runEnd\<close> is called with more than one session registered (the case in which
  it writes the \<^verbatim>\<open>TOTAL\<close> line), the counts \<^verbatim>\<open>numTests\<close>, \<^verbatim>\<open>numFailedTests\<close> and
  \<^verbatim>\<open>numSkippedTests\<close> that its loop has accumulated are the sums of these fields over the
  root suites of the registered sessions, the platform count is the number of registered
  sessions, and the line written is made of exactly these numbers.
\<close>

theorem runEnd_aggregate_counts:
  assumes "distinct (map fst (sessions st))" and "1 < length (sessions st)"
  shows "snd (runEnd_totals st) =
      (sum_over numTests st, sum_over numFailedTests st, sum_over numSkippedTests st) \<and>
    (\<exists>report c. written st (runEnd st) =
      report @
      [Display Bright, Foreground c,
       Write (''TOTAL: tested '' @ show_nat (length (sessions st)) @ '' platforms, '' @
              show_nat (sum_over numFailedTests st) @ ''/'' @
              show_nat (sum_over numTests st) @ '' tests failed'' @
              skipped_suffix (sum_over numSkippedTests st) @
              (if hasErrors st \<and> sum_over numFailedTests st = 0
               then ''; fatal error occurred'' else [])),
       Display Reset, Write nl])"
proof -
  obtain cmap where "runEnd_totals st =
      (cmap, sum_over numTests st, sum_over numFailedTests st, sum_over numSkippedTests st)"
    using runEnd_totals_sums [OF assms(1)] by (cases "runEnd_totals st") simp
  with runEnd_written [OF assms(2) this] runEnd_totals_sums [OF assms(1)] show ?thesis
    by blast
qed

theorem runEnd_aggregate_counts_witness:
  "distinct (map fst (sessions two_sessions)) \<and> 1 < length (sessions two_sessions) \<and>
   sum_over numTests two_sessions = 15 \<and> sum_over numFailedTests two_sessions = 2 \<and>
   sum_over numSkippedTests two_sessions = 1 \<and>
   snd (runEnd_totals two_sessions) = (15, 2, 1) \<and>
   (\<exists>report c. written two_sessions (runEnd two_sessions) =
      report @
      [Display Bright, Foreground c,
       Write ''TOTAL: tested 2 platforms, 2/15 tests failed (1 skipped)'',
       Display Reset, Write nl])"
proof -
  have ss: "sessions two_sessions =
      [(''s1'', \<lparr>session_coverage = None, session_suite = suite_A\<rparr>),
       (''s2'', \<lparr>session_coverage = None, session_suite = suite_B\<rparr>)]"
    by (simp add: two_sessions_def suiteStart_def fresh_def new_Runner_def suite_A_def
        suite_B_def or_empty_def truthy_def emit_def)
  have 1: "distinct (map fst (sessions two_sessions))" and 2: "1 < length (sessions two_sessions)"
    by (simp_all add: ss)
  have sums: "sum_over numTests two_sessions = 15" "sum_over numFailedTests two_sessions = 2"
    "sum_over numSkippedTests two_sessions = 1"
    by (simp_all add: sum_over_def ss suite_A_def suite_B_def)
  have "\<not> hasErrors two_sessions"
    by (simp add: two_sessions_def suiteStart_def fresh_def new_Runner_def emit_def
        suite_A_def suite_B_def Let_def)
  with runEnd_aggregate_counts [OF 1 2] 1 2 sums show ?thesis
    by (simp add: ss skipped_suffix_def show_nat.simps digit_def)
qed

subsection \<open>What runEnd writes\<close>

text \<open>
  The map that \<^verbatim>\<open>runEnd\<close> reports is the cumulative merge, in the order of the keys, of
  the coverage maps of the sessions that have one.
\<close>

lemma foldl_runEnd_step_map:
  "fst (foldl (runEnd_step ss) (c, a, b, d) ks) =
     foldl merge c
       (List.map_filter (\<lambda>k. case map_of ss k of None \<Rightarrow> None | Some s \<Rightarrow> session_coverage s) ks)"
  by (induction ks arbitrary: c a b d) (auto simp: List.map_filter_simps split: option.splits)

lemma runEnd_totals_merged:
  assumes "distinct (map fst (sessions st))"
  shows "fst (runEnd_totals st) =
     foldl merge createCoverageMap (List.map_filter (\<lambda>(sid, s). session_coverage s) (sessions st))"
proof -
  have *: "map_of (sessions st) (fst p) = Some (snd p)" if "p \<in> set (sessions st)" for p
    using that assms by (metis map_of_is_SomeI prod.collapse)
  have "List.map_filter (\<lambda>k. case map_of (sessions st) k of None \<Rightarrow> None
                               | Some s \<Rightarrow> session_coverage s) (map fst (sessions st)) =
        List.map_filter (\<lambda>(sid, s). session_coverage s) (sessions st)"
    unfolding List.map_filter_def filter_map map_map
    by (rule map_cong, rule filter_cong) (auto simp: * split_def)
  then show ?thesis
    by (simp add: runEnd_totals_def foldl_runEnd_step_map)
qed

text \<open>The older \<^verbatim>\<open>runEnd\<close> writes its summary whatever the number of sessions.\<close>

lemma legacy_runEnd_written:
  assumes "runEnd_totals st = (cmap, t, f, s)"
  shows "written st (legacy_runEnd st) =
    Write nl # (if files cmap \<noteq> [] then [CreateCoverageReport cmap] else []) @
    [Display Bright, Background (if 0 < f \<or> hasErrors st then Red else Green),
     Write (''TOTAL: tested '' @ show_nat (length (sessions st)) @ '' platforms, '' @
            show_nat f @ ''/'' @ show_nat t @ '' tests failed'' @ skipped_suffix s @
            (if hasErrors st \<and> f = 0 then ''; fatal error occurred'' else [])),
     Display Reset, Write nl]"
  using assms by (simp add: legacy_runEnd_def Let_def skipped_suffix_def written_def emit_def)

text \<open>
  C4, as amended. The \<^verbatim>\<open>runEnd\<close> of the newer reporter writes the \<^verbatim>\<open>TOTAL\<close> summary line if
  and only if more than one session is registered; it writes a combined coverage report if
  and only if more than one session is registered and the merged coverage map has at least
  one file, and the map reported is the merged map; with zero or one session registered it
  writes nothing (the reporter is unchanged). The \<^verbatim>\<open>runEnd\<close> of the older reporter has no
  guard on the number of sessions: for any number of sessions it writes a newline, the
  report of the merged map when that has a file, and the \<^verbatim>\<open>TOTAL\<close> line. The theorem gives
  what each of the two writes, call by call.
\<close>

theorem runEnd_emits:
  "(case runEnd_totals st of
      (cmap, t, f, s) \<Rightarrow>
        written st (runEnd st) =
          (if 1 < length (sessions st) then
             (if files cmap \<noteq> []
              then [Write nl, Display Bright, Write (''Total coverage'' @ nl), Display Reset,
                    CreateCoverageReport cmap]
              else []) @
             [Display Bright, Foreground (if 0 < f \<or> hasErrors st then Red else Green),
              Write (''TOTAL: tested '' @ show_nat (length (sessions st)) @ '' platforms, '' @
                     show_nat f @ ''/'' @ show_nat t @ '' tests failed'' @ skipped_suffix s @
                     (if hasErrors st \<and> f = 0 then ''; fatal error occurred'' else [])),
              Display Reset, Write nl]
           else []) \<and>
        written st (legacy_runEnd st) =
          Write nl # (if files cmap \<noteq> [] then [CreateCoverageReport cmap] else []) @
          [Display Bright, Background (if 0 < f \<or> hasErrors st then Red else Green),
           Write (''TOTAL: tested '' @ show_nat (length (sessions st)) @ '' platforms, '' @
                  show_nat f @ ''/'' @ show_nat t @ '' tests failed'' @ skipped_suffix s @
                  (if hasErrors st \<and> f = 0 then ''; fatal error occurred'' else [])),
           Display Reset, Write nl]) \<and>
   ((\<exists>line. Write (''TOTAL: tested '' @ line) \<in> set (written st (runEnd st))) =
      (1 < length (sessions st))) \<and>
   ((CreateCoverageReport (fst (runEnd_totals st)) \<in> set (written st (runEnd st))) =
      (1 < length (sessions st) \<and> files (fst (runEnd_totals st)) \<noteq> [])) \<and>
   (\<forall>c. CreateCoverageReport c \<in> set (written st (runEnd st)) \<longrightarrow> c = fst (runEnd_totals st)) \<and>
   (length (sessions st) \<le> 1 \<longrightarrow> runEnd st = st) \<and>
   (\<exists>line. Write (''TOTAL: tested '' @ line) \<in> set (written st (legacy_runEnd st)))"
proof -
  obtain cmap t f s where tot: "runEnd_totals st = (cmap, t, f, s)"
    by (cases "runEnd_totals st") auto
  define total where "total =
    ''TOTAL: tested '' @ show_nat (length (sessions st)) @ '' platforms, '' @
      show_nat f @ ''/'' @ show_nat t @ '' tests failed'' @ skipped_suffix s @
      (if hasErrors st \<and> f = 0 then ''; fatal error occurred'' else [])"
  define summary where "summary =
    [Display Bright, Foreground (if 0 < f \<or> hasErrors st then Red else Green),
     Write total, Display Reset, Write nl]"
  define report where "report =
    (if files cmap \<noteq> []
     then [Write nl, Display Bright, Write (''Total coverage'' @ nl), Display Reset,
           CreateCoverageReport cmap]
     else [])"
  have few: "runEnd st = st" if "\<not> 1 < length (sessions st)"
    using that by (simp add: runEnd_def)
  have new: "written st (runEnd st) = (if 1 < length (sessions st) then report @ summary else [])"
  proof (cases "1 < length (sessions st)")
    case True
    from runEnd_written [OF True tot] True show ?thesis
      by (simp only: report_def summary_def total_def if_True)
  next
    case False
    with few show ?thesis
      by simp
  qed
  have old: "written st (legacy_runEnd st) =
      Write nl # (if files cmap \<noteq> [] then [CreateCoverageReport cmap] else []) @
      [Display Bright, Background (if 0 < f \<or> hasErrors st then Red else Green),
       Write total, Display Reset, Write nl]"
    using legacy_runEnd_written [OF tot] by (simp only: total_def)
  have total: "\<exists>line. total = ''TOTAL: tested '' @ line"
    unfolding total_def by blast
  have in_summary: "(\<exists>line. Write (''TOTAL: tested '' @ line) \<in> set summary)"
    using total by (auto simp: summary_def)
  have in_report: "\<not> (\<exists>line. Write (''TOTAL: tested '' @ line) \<in> set report)"
    by (simp add: report_def nl_def)
  have cov_summary: "CreateCoverageReport c \<notin> set summary" for c
    by (simp add: summary_def)
  have cov_report: "(CreateCoverageReport c \<in> set report) = (files cmap \<noteq> [] \<and> c = cmap)" for c
    by (auto simp: report_def)
  have 1: "case runEnd_totals st of
      (cmap, t, f, s) \<Rightarrow>
        written st (runEnd st) =
          (if 1 < length (sessions st) then
             (if files cmap \<noteq> []
              then [Write nl, Display Bright, Write (''Total coverage'' @ nl), Display Reset,
                    CreateCoverageReport cmap]
              else []) @
             [Display Bright, Foreground (if 0 < f \<or> hasErrors st then Red else Green),
              Write (''TOTAL: tested '' @ show_nat (length (sessions st)) @ '' platforms, '' @
                     show_nat f @ ''/'' @ show_nat t @ '' tests failed'' @ skipped_suffix s @
                     (if hasErrors st \<and> f = 0 then ''; fatal error occurred'' else [])),
              Display Reset, Write nl]
           else []) \<and>
        written st (legacy_runEnd st) =
          Write nl # (if files cmap \<noteq> [] then [CreateCoverageReport cmap] else []) @
          [Display Bright, Background (if 0 < f \<or> hasErrors st then Red else Green),
           Write (''TOTAL: tested '' @ show_nat (length (sessions st)) @ '' platforms, '' @
                  show_nat f @ ''/'' @ show_nat t @ '' tests failed'' @ skipped_suffix s @
                  (if hasErrors st \<and> f = 0 then ''; fatal error occurred'' else [])),
           Display Reset, Write nl]"
    using new old unfolding tot prod.case report_def summary_def total_def by (rule conjI)
  have 2: "(\<exists>line. Write (''TOTAL: tested '' @ line) \<in> set (written st (runEnd st))) =
      (1 < length (sessions st))"
    using in_summary in_report by (auto simp: new)
  have 3: "(CreateCoverageReport (fst (runEnd_totals st)) \<in> set (written st (runEnd st))) =
      (1 < length (sessions st) \<and> files (fst (runEnd_totals st)) \<noteq> [])"
    by (simp add: new tot cov_summary cov_report)
  have 4: "\<forall>c. CreateCoverageReport c \<in> set (written st (runEnd st)) \<longrightarrow> c = fst (runEnd_totals st)"
    by (simp add: new tot cov_summary cov_report)
  have 5: "length (sessions st) \<le> 1 \<longrightarrow> runEnd st = st"
    using few by simp
  have 6: "\<exists>line. Write (''TOTAL: tested '' @ line) \<in> set (written st (legacy_runEnd st))"
    using total by (auto simp: old)
  from 1 2 3 4 5 6 show ?thesis
    by (intro conjI)
qed

theorem runEnd_emits_witness:
  "1 < length (sessions covered_run) \<and>
   written covered_run (runEnd covered_run) =
     [Write nl, Display Bright, Write (''Total coverage'' @ nl), Display Reset,
      CreateCoverageReport [(''a.js'', 3)],
      Display Bright, Foreground Red,
      Write ''TOTAL: tested 2 platforms, 2/15 tests failed (1 skipped)'',
      Display Reset, Write nl] \<and>
   length (sessions one_session) \<le> 1 \<and> runEnd one_session = one_session \<and>
   written one_session (legacy_runEnd one_session) =
     [Write nl, Display Bright, Background Green,
      Write ''TOTAL: tested 1 platforms, 0/1 tests failed'', Display Reset, Write nl]"
proof -
  have ss: "sessions covered_run =
      [(''s1'', \<lparr>session_coverage = Some [(''a.js'', 3)], session_suite = suite_A\<rparr>),
       (''s2'', \<lparr>session_coverage = None, session_suite = suite_B\<rparr>)]"
    by (simp add: covered_run_def after_def coverage_def two_sessions_def suiteStart_def
        fresh_def new_Runner_def suite_A_def suite_B_def or_empty_def truthy_def emit_def
        createCoverageMap_def merge_def Let_def)
  have 1: "1 < length (sessions covered_run)"
    by (simp add: ss)
  have 2: "runEnd_totals covered_run = ([(''a.js'', 3)], 15, 2, 1)"
    by (simp add: runEnd_totals_def ss createCoverageMap_def merge_def suite_A_def suite_B_def)
  have 3: "\<not> hasErrors covered_run"
    by (simp add: covered_run_def after_def coverage_def two_sessions_def suiteStart_def
        fresh_def new_Runner_def suite_A_def suite_B_def or_empty_def truthy_def emit_def
        Let_def)
  have os: "sessions one_session =
      [(''s1'', \<lparr>session_coverage = None, session_suite = root_with_failed_test\<rparr>)]"
    "\<not> hasErrors one_session"
    by (simp_all add: one_session_def suiteStart_def fresh_def new_Runner_def emit_def
        root_with_failed_test_def truthy_def or_empty_def)
  have 4: "runEnd_totals one_session = ([], 1, 0, 0)"
    by (simp add: runEnd_totals_def os createCoverageMap_def root_with_failed_test_def)
  have a: "written covered_run (runEnd covered_run) =
     [Write nl, Display Bright, Write (''Total coverage'' @ nl), Display Reset,
      CreateCoverageReport [(''a.js'', 3)],
      Display Bright, Foreground Red,
      Write ''TOTAL: tested 2 platforms, 2/15 tests failed (1 skipped)'',
      Display Reset, Write nl]"
    using runEnd_emits [of covered_run, THEN conjunct1, unfolded 2 prod.case, THEN conjunct1]
    by (simp add: 1 3 ss files_def skipped_suffix_def show_nat.simps digit_def)
  have b: "runEnd one_session = one_session"
    using runEnd_emits [of one_session, THEN conjunct2, THEN conjunct2, THEN conjunct2,
        THEN conjunct2, THEN conjunct1]
    by (simp add: os)
  have c: "written one_session (legacy_runEnd one_session) =
     [Write nl, Display Bright, Background Green,
      Write ''TOTAL: tested 1 platforms, 0/1 tests failed'', Display Reset, Write nl]"
    using runEnd_emits [of one_session, THEN conjunct1, unfolded 4 prod.case, THEN conjunct2]
    by (simp add: os files_def skipped_suffix_def show_nat.simps digit_def)
  from a b c 1 show ?thesis
    by (simp add: os)
qed

text \<open>
  C4 as stated fails. In the newer reporter, with two sessions registered and no coverage
  received, the merged map has no file and \<^verbatim>\<open>runEnd\<close> writes the \<^verbatim>\<open>TOTAL\<close> line without any
  coverage report. In the older reporter, with one session registered, \<^verbatim>\<open>runEnd\<close> writes
  the \<^verbatim>\<open>TOTAL\<close> line all the same.
\<close>

theorem runEnd_no_coverage_counterexample:
  "1 < length (sessions two_sessions) \<and>
   written two_sessions (runEnd two_sessions) =
     [Display Bright, Foreground Red,
      Write ''TOTAL: tested 2 platforms, 2/15 tests failed (1 skipped)'',
      Display Reset, Write nl] \<and>
   length (sessions one_session) = 1 \<and>
   written one_session (legacy_runEnd one_session) =
     [Write nl, Display Bright, Background Green,
      Write ''TOTAL: tested 1 platforms, 0/1 tests failed'', Display Reset, Write nl]"
  by (simp add: two_sessions_def one_session_def root_with_failed_test_def suiteStart_def
      fresh_def new_Runner_def suite_A_def suite_B_def or_empty_def truthy_def emit_def
      runEnd_def legacy_runEnd_def runEnd_totals_def
      createCoverageMap_def files_def written_def Let_def show_nat.simps digit_def)

subsection \<open>Suites with a parent\<close>

text \<open>
  C5, as amended. For every suite that has a parent and carries no error, \<^verbatim>\<open>suiteEnd\<close>
  performs no action: the reporter is unchanged (nothing is written, \<^verbatim>\<open>hasErrors\<close> and
  the sessions map are as before). The sessions map is unchanged for every suite that
  has a parent, with or without an error.
\<close>

theorem suiteEnd_child:
  "hasParent s \<Longrightarrow>
     (suite_error s = None \<longrightarrow> suiteEnd st s = st) \<and> sessions (suiteEnd st s) = sessions st"
  by (simp add: suiteEnd_def split: option.splits)

theorem suiteEnd_child_witness:
  "hasParent nested_suite \<and> suite_error nested_suite = None \<and>
   suiteEnd two_sessions nested_suite = two_sessions \<and>
   sessions (suiteEnd two_sessions nested_suite) = sessions two_sessions"
  using suiteEnd_child [of nested_suite two_sessions]
  by (simp add: nested_suite_def)

text \<open>
  C5 as stated fails: the error of a suite is checked before its parent is, so a suite
  that has a parent and carries an error is written as failed and sets \<^verbatim>\<open>hasErrors\<close>.
\<close>

theorem suiteEnd_child_counterexample:
  "hasParent broken_child \<and>
   \<not> hasErrors two_sessions \<and> hasErrors (suiteEnd two_sessions broken_child) \<and>
   written two_sessions (suiteEnd two_sessions broken_child) =
     [Foreground Red, Write (''Suite R - setup FAILED'' @ nl), Write ''before failed'',
      Display Reset, Write nl]"
  by (simp add: broken_child_def suiteEnd_def two_sessions_def suiteStart_def fresh_def
      new_Runner_def suite_A_def suite_B_def or_empty_def truthy_def emit_def written_def
      formatError_def)

subsection \<open>The error flag\<close>

lemma hasErrors_runEnd [simp]: "hasErrors (runEnd st) = hasErrors st"
  by (simp add: runEnd_def Let_def split: prod.splits)

lemma hasErrors_suiteEnd: "hasErrors st \<Longrightarrow> hasErrors (suiteEnd st s)"
  by (simp add: suiteEnd_def Let_def split: option.splits)

lemma handle_keeps_hasErrors: "hasErrors st \<Longrightarrow> handle st ev = Inr st' \<Longrightarrow> hasErrors st'"
proof (cases ev)
  case (Coverage m)
  assume "hasErrors st" "handle st ev = Inr st'"
  with Coverage show ?thesis
    by (auto simp: coverage_def Let_def split: option.splits)
next
  case (SuiteEnd s)
  assume "hasErrors st" "handle st ev = Inr st'"
  with SuiteEnd show ?thesis
    by (auto simp: hasErrors_suiteEnd)
next
  case (TunnelDownloadProgress m)
  assume "hasErrors st" "handle st ev = Inr st'"
  with TunnelDownloadProgress show ?thesis
    by (auto simp: tunnelDownloadProgress_def split: option.splits)
qed (auto simp: deprecated_def Let_def error_def log_def serverStart_def suiteStart_def
      testEnd_def tunnelStart_def tunnelStatus_def split: option.splits)

lemma after_keeps_hasErrors: "hasErrors st \<Longrightarrow> hasErrors (after st ev)"
  by (auto simp: after_def dest: handle_keeps_hasErrors split: sum.splits)

lemma run_keeps_hasErrors: "hasErrors st \<Longrightarrow> hasErrors (run st evs)"
  by (induction evs arbitrary: st) (auto simp: after_keeps_hasErrors)

lemma run_append: "run st (evs @ evs') = run (run st evs) evs'"
  by (induction evs arbitrary: st) auto

text \<open>
  C6. The flag \<^verbatim>\<open>hasErrors\<close> is false in the reporter as constructed. No handler that
  returns sets it from true to false (a handler that throws changes nothing). If it is
  true after some events of a run it is true after any further events. The \<^verbatim>\<open>error\<close>
  event and the \<^verbatim>\<open>suiteEnd\<close> of a suite that carries an error set it, and it is then still
  true after every sequence of events that follows.
\<close>

theorem hasErrors_sticky:
  "\<not> hasErrors (new_Runner serve hide_passed hide_skipped) \<and>
   (hasErrors st \<longrightarrow> (\<forall>st'. handle st ev = Inr st' \<longrightarrow> hasErrors st')) \<and>
   (hasErrors (run st evs) \<longrightarrow> hasErrors (run st (evs @ evs'))) \<and>
   hasErrors (run (after st (ErrorEvent e)) evs) \<and>
   (suite_error s \<noteq> None \<longrightarrow> hasErrors (run (after st (SuiteEnd s)) evs))"
proof -
  have "hasErrors (after st (ErrorEvent e))"
    by (simp add: after_def error_def)
  moreover have "suite_error s \<noteq> None \<Longrightarrow> hasErrors (after st (SuiteEnd s))"
    by (auto simp: after_def suiteEnd_def)
  ultimately show ?thesis
    by (auto simp: new_Runner_def run_append run_keeps_hasErrors dest: handle_keeps_hasErrors)
qed

theorem hasErrors_sticky_witness:
  "\<not> hasErrors fresh \<and> hasErrors errored_run \<and>
   handle errored_run RunEnd = Inr (runEnd errored_run) \<and> hasErrors (runEnd errored_run) \<and>
   hasErrors (run fresh [ErrorEvent (Error ''tunnel lost'')]) \<and>
   hasErrors (run fresh ([ErrorEvent (Error ''tunnel lost'')] @
                         [SuiteStart suite_A, TestEnd passed_test, SuiteEnd suite_A, RunEnd])) \<and>
   suite_error broken_child = Some (Error ''before failed'') \<and>
   hasErrors (run (after fresh (SuiteEnd broken_child)) [SuiteStart suite_A, RunEnd])"
  using
    hasErrors_sticky [where serve = False and hide_passed = False and hide_skipped = False
      and st = errored_run and ev = RunEnd and evs = "[]" and evs' = "[]" and s = suite_A]
    hasErrors_sticky [where st = fresh and evs = "[ErrorEvent (Error ''tunnel lost'')]"
      and evs' = "[SuiteStart suite_A, TestEnd passed_test, SuiteEnd suite_A, RunEnd]"
      and s = broken_child]
    hasErrors_sticky [where st = fresh and s = broken_child
      and evs = "[SuiteStart suite_A, RunEnd]" and evs' = "[]"]
  by (simp add: fresh_def errored_run_def error_def after_def broken_child_def new_Runner_def
      emit_def)

subsection \<open>Deprecation notices\<close>

lemma deprecated_repeat: "deprecated (deprecated st m) m = deprecated st m"
  by (simp add: deprecated_def Let_def emit_def)

lemma deprecated_fresh_key:
  "deprecationMessages st (deprecation_key m) \<noteq> Some True \<Longrightarrow>
   written st (deprecated st m) \<noteq> [] \<and>
   deprecationMessages (deprecated st m) (deprecation_key m) = Some True"
  by (simp add: deprecated_def Let_def emit_def written_def)

text \<open>
  C7. The claim: events with distinct (original, replacement, message) triples are each
  rendered. The handler remembers the string \<^verbatim>\<open>original|replacement|message\<close>, which two
  distinct triples can share: after \<open>notice_1\<close>, the different notice \<open>notice_2\<close> has the
  same key \<^verbatim>\<open>run|start|stop|halt\<close> and is dropped.
\<close>

theorem deprecated_key_collision:
  "notice_1 \<noteq> notice_2 \<and>
   deprecation_key notice_1 = deprecation_key notice_2 \<and>
   deprecated (deprecated fresh notice_1) notice_2 = deprecated fresh notice_1"
  by (simp add: notice_1_def notice_2_def deprecated_def deprecation_key_def js_string_def
      Let_def truthy_def emit_def fresh_def new_Runner_def)

subsection \<open>The verdict of a run\<close>

text \<open>
  C8. When \<^verbatim>\<open>runEnd\<close> writes the \<^verbatim>\<open>TOTAL\<close> summary (more than one session is registered),
  the line is written in red if the sum of \<^verbatim>\<open>numFailedTests\<close> over the sessions is greater
  than 0 or \<^verbatim>\<open>hasErrors\<close> is true, and in green otherwise; with no failed test and
  \<^verbatim>\<open>hasErrors\<close> set it is red and ends with \<^verbatim>\<open>; fatal error occurred\<close>.
\<close>

theorem runEnd_verdict:
  assumes "distinct (map fst (sessions st))" and "1 < length (sessions st)"
  shows "\<exists>report line. written st (runEnd st) =
      report @
      [Display Bright,
       Foreground (if 0 < sum_over numFailedTests st \<or> hasErrors st then Red else Green),
       Write (''TOTAL: tested '' @ line @
              (if hasErrors st \<and> sum_over numFailedTests st = 0
               then ''; fatal error occurred'' else [])),
       Display Reset, Write nl]"
proof -
  obtain cmap where "runEnd_totals st =
      (cmap, sum_over numTests st, sum_over numFailedTests st, sum_over numSkippedTests st)"
    using runEnd_totals_sums [OF assms(1)] by (cases "runEnd_totals st") simp
  from runEnd_written [OF assms(2) this] show ?thesis
    by (metis append_assoc)
qed

theorem runEnd_verdict_witness:
  "distinct (map fst (sessions errored_run)) \<and> 1 < length (sessions errored_run) \<and>
   hasErrors errored_run \<and> sum_over numFailedTests errored_run = 0 \<and>
   (\<exists>report line. written errored_run (runEnd errored_run) =
      report @
      [Display Bright, Foreground Red,
       Write (''TOTAL: tested '' @ line @ ''; fatal error occurred''),
       Display Reset, Write nl])"
proof -
  have ss: "sessions errored_run =
      [(''s2'', \<lparr>session_coverage = None, session_suite = suite_B\<rparr>),
       (''s3'', \<lparr>session_coverage = None, session_suite = suite_C\<rparr>)]"
    by (simp add: errored_run_def error_def suiteStart_def fresh_def new_Runner_def suite_B_def
        suite_C_def or_empty_def truthy_def emit_def)
  have 1: "distinct (map fst (sessions errored_run))" and 2: "1 < length (sessions errored_run)"
    by (simp_all add: ss)
  have 3: "hasErrors errored_run"
    by (simp add: errored_run_def error_def)
  have 4: "sum_over numFailedTests errored_run = 0"
    by (simp add: sum_over_def ss suite_B_def suite_C_def)
  from runEnd_verdict [OF 1 2] 1 2 3 4 show ?thesis
    by simp
qed

subsection \<open>Registering a session\<close>

text \<open>
  C9. \<^verbatim>\<open>suiteStart\<close> leaves the sessions map unchanged for a suite that has a parent.
  For a suite without parent the map afterwards is the map before, updated at the key
  \<^verbatim>\<open>suite.sessionId || ''\<close> with a fresh entry that holds the suite and no coverage map:
  the key is bound to the fresh entry whatever it was bound to, and every other key is as
  before. The keys stay distinct: there is at most one entry per session identifier.
\<close>

theorem suiteStart_sessions:
  "(hasParent s \<longrightarrow> sessions (suiteStart st s) = sessions st) \<and>
   (\<not> hasParent s \<longrightarrow>
      map_of (sessions (suiteStart st s)) =
        (map_of (sessions st))(or_empty (sessionId s) \<mapsto>
           \<lparr>session_coverage = None, session_suite = s\<rparr>)) \<and>
   (distinct (map fst (sessions st)) \<longrightarrow> distinct (map fst (sessions (suiteStart st s))))"
  by (simp add: suiteStart_def Let_def update_conv' distinct_update)

theorem suiteStart_sessions_witness:
  "\<not> hasParent suite_B \<and> hasParent broken_child \<and>
   sessions (suiteStart (suiteStart fresh suite_A) broken_child) =
     sessions (suiteStart fresh suite_A) \<and>
   map_of (sessions (suiteStart (suiteStart fresh suite_A) suite_B)) =
     (map_of (sessions (suiteStart fresh suite_A)))(''s2'' \<mapsto>
        \<lparr>session_coverage = None, session_suite = suite_B\<rparr>) \<and>
   distinct (map fst (sessions (suiteStart (suiteStart fresh suite_A) suite_B)))"
  using suiteStart_sessions [of suite_B "suiteStart fresh suite_A"]
    suiteStart_sessions [of broken_child "suiteStart fresh suite_A"]
  by (simp add: suite_B_def broken_child_def or_empty_def suiteStart_def fresh_def
      new_Runner_def suite_A_def truthy_def emit_def)

text \<open>The older \<^verbatim>\<open>suiteStart\<close> registers the session in the same way.\<close>

lemma legacy_suiteStart_sessions: "sessions (legacy_suiteStart st s) = sessions (suiteStart st s)"
  by (simp add: legacy_suiteStart_def suiteStart_def Let_def)

subsection \<open>Reporting a test\<close>

text \<open>
  C10. For a test without error: a passed test (its \<^verbatim>\<open>skipped\<close> is falsy) writes nothing
  when \<^verbatim>\<open>hidePassed\<close> is set and is written in green, with its identifier and elapsed time,
  when it is not; a skipped test (its \<^verbatim>\<open>skipped\<close> is truthy) writes nothing when
  \<^verbatim>\<open>hideSkipped\<close> is set and is written in magenta, with its identifier and the reason, when
  it is not. A test that carries an error is written with its identifier, its elapsed
  time and its error message, whatever the two flags are. \<^verbatim>\<open>testEnd\<close> changes nothing but
  the terminal.
\<close>

theorem testEnd_gating:
  "(test_error t = None \<and> \<not> truthy (skipped t) \<and> hidePassed st \<longrightarrow> testEnd st t = st) \<and>
   (test_error t = None \<and> truthy (skipped t) \<and> hideSkipped st \<longrightarrow> testEnd st t = st) \<and>
   (test_error t = Some e \<longrightarrow>
      written st (testEnd st t) =
        [Foreground Red, Write (cross_mark @ test_id t),
         Write ('' ('' @ seconds (timeElapsed t) @ ''s)''), Write nl, Display Reset,
         Foreground Red, Write (formatError e), Display Reset, Write nl]) \<and>
   (test_error t = None \<and> \<not> truthy (skipped t) \<longrightarrow>
      written st (testEnd st t) =
        (if hidePassed st then []
         else [Foreground Green, Write (check_mark @ test_id t), Display Reset,
               Write ('' ('' @ seconds (timeElapsed t) @ ''s)''), Display Reset, Write nl])) \<and>
   (test_error t = None \<and> truthy (skipped t) \<longrightarrow>
      written st (testEnd st t) =
        (if hideSkipped st then []
         else [Foreground Magenta, Write (''~ '' @ test_id t), Display Reset,
               Write ('' ('' @ js_string (skipped t) @ '')''), Display Reset, Write nl])) \<and>
   testEnd st t = emit (written st (testEnd st t)) st"
  by (simp add: testEnd_def emit_def written_def split: option.splits)

theorem testEnd_gating_witness:
  "hidePassed quiet \<and> hideSkipped quiet \<and>
   testEnd quiet passed_test = quiet \<and> testEnd quiet skipped_test = quiet \<and>
   written quiet (testEnd quiet failed_test) =
     [Foreground Red, Write (cross_mark @ ''t2''), Write '' (0.005s)'', Write nl,
      Display Reset, Foreground Red, Write ''boom'', Display Reset, Write nl] \<and>
   \<not> hidePassed fresh \<and> \<not> hideSkipped fresh \<and>
   written fresh (testEnd fresh passed_test) =
     [Foreground Green, Write (check_mark @ ''t1''), Display Reset, Write '' (1.234s)'',
      Display Reset, Write nl] \<and>
   written fresh (testEnd fresh skipped_test) =
     [Foreground Magenta, Write ''~ t3'', Display Reset, Write '' (not now)'',
      Display Reset, Write nl] \<and>
   written fresh (testEnd fresh failed_test) =
     [Foreground Red, Write (cross_mark @ ''t2''), Write '' (0.005s)'', Write nl,
      Display Reset, Foreground Red, Write ''boom'', Display Reset, Write nl]"
  using testEnd_gating [of passed_test quiet] testEnd_gating [of skipped_test quiet]
    testEnd_gating [of failed_test quiet "Error ''boom''"]
    testEnd_gating [of passed_test fresh] testEnd_gating [of skipped_test fresh]
    testEnd_gating [of failed_test fresh "Error ''boom''"]
  by (simp add: passed_test_def skipped_test_def failed_test_def quiet_def fresh_def
      new_Runner_def truthy_def formatError_def seconds_def fraction_def show_nat.simps
      digit_def js_string_def)

end
